theory Spec2Isabelle
  imports Main
begin

section \<open>Data model (shared/schema.ts)\<close>

text \<open>
  The tables of the schema, one record per row type. Column names are those of the
  schema; a prefix is added where two tables share a column name or where the name is
  a constant of HOL (\<open>id\<close>, \<open>size\<close>). Nullable columns are options. Serial ids are
  integers, timestamps are natural numbers (a point in time).
\<close>

type_synonym timestamp = nat

record user =
  user_id :: string
  email :: "string option"
  firstName :: "string option"
  lastName :: "string option"
  profileImageUrl :: "string option"
  role :: string
  user_createdAt :: "timestamp option"
  user_updatedAt :: "timestamp option"

record invention =
  inv_id :: int
  title :: string
  description :: string
  tags :: "string list"
  status :: string
  fundingAmount :: "int option"
  authorId :: string
  createdAt :: "timestamp option"
  updatedAt :: "timestamp option"

record file_info =
  file_id :: int
  filename :: string
  originalName :: string
  mimeType :: string
  file_size :: int
  file_inventionId :: int
  uploadedAt :: "timestamp option"

record comment =
  comment_id :: int
  content :: string
  comment_inventionId :: int
  comment_authorId :: string
  comment_createdAt :: "timestamp option"

record like =
  like_id :: int
  like_inventionId :: int
  like_userId :: string
  isLike :: bool
  like_createdAt :: "timestamp option"

text \<open>
  The database: the five tables in insertion order, and the last value handed out by
  the sequence behind each \<open>serial\<close> id column that the modelled operations insert into.
\<close>

record store =
  users :: "user list"
  inventions :: "invention list"
  files :: "file_info list"
  comments :: "comment list"
  likes :: "like list"
  comments_id_seq :: int
  likes_id_seq :: int

text \<open>
  An insert can be rejected by the constraints the schema declares: the primary key of
  the table and its foreign keys (\<open>references(() => inventions.id)\<close>,
  \<open>references(() => users.id)\<close>). A statement can also be rejected for its parameters:
  a value that an \<open>integer\<close> column cannot hold (SQLSTATE 22003), a text that is not the
  written form of a value of the parameter's type (22P02), an operator that does not
  exist for the operand types (42883), a text that is no SQL (42601). The rejected
  statement surfaces to the caller as an exception; it is a value here.
\<close>

datatype db_error =
  UniqueViolation
| ForeignKeyViolation
| NumericValueOutOfRange
| InvalidTextRepresentation
| UndefinedFunction
| SyntaxError

text \<open>The argument objects of the storage operations.\<close>

record InsertLike =
  new_inventionId :: int
  new_isLike :: bool
  new_userId :: string

record InsertComment =
  new_content :: string
  new_comment_inventionId :: int
  new_authorId :: string

record filters =
  f_status :: "string option"
  f_tags :: "string list option"

section \<open>Like operations (server/storage.ts)\<close>

text \<open>
  \<open>db.insert(likes).values(like)\<close>: the id is the next value of the sequence (which is
  consumed even when the row is rejected), \<open>createdAt\<close> defaults to the current time.
\<close>

definition insert_likes :: "timestamp \<Rightarrow> InsertLike \<Rightarrow> store \<Rightarrow> db_error option \<times> store" where
  "insert_likes now like s =
     (let n = likes_id_seq s + 1;
          s1 = s\<lparr>likes_id_seq := n\<rparr>
      in if n \<in> set (map like_id (likes s)) then (Some UniqueViolation, s1)
         else if new_inventionId like \<notin> set (map inv_id (inventions s))
                 \<or> new_userId like \<notin> set (map user_id (users s))
         then (Some ForeignKeyViolation, s1)
         else (None, s1\<lparr>likes := likes s @
                 [\<lparr>like_id = n, like_inventionId = new_inventionId like,
                   like_userId = new_userId like, isLike = new_isLike like,
                   like_createdAt = Some now\<rparr>]\<rparr>))"

text \<open>The rows selected by \<open>and(eq(likes.inventionId, i), eq(likes.userId, u))\<close>.\<close>

definition pair_likes :: "store \<Rightarrow> int \<Rightarrow> string \<Rightarrow> like list" where
  "pair_likes s i u = filter (\<lambda>l. like_inventionId l = i \<and> like_userId l = u) (likes s)"

definition toggleLike :: "timestamp \<Rightarrow> InsertLike \<Rightarrow> store \<Rightarrow> db_error option \<times> store" where
  "toggleLike now like s =
     (let existingLike = pair_likes s (new_inventionId like) (new_userId like)
      in case existingLike of
           existing # _ \<Rightarrow>
             if isLike existing = new_isLike like
             then (None, s\<lparr>likes := filter (\<lambda>l. like_id l \<noteq> like_id existing) (likes s)\<rparr>)
             else (None, s\<lparr>likes := map (\<lambda>l. if like_id l = like_id existing
                                                then l\<lparr>isLike := new_isLike like\<rparr> else l) (likes s)\<rparr>)
         | [] \<Rightarrow> insert_likes now like s)"

definition getUserLike :: "store \<Rightarrow> int \<Rightarrow> string \<Rightarrow> like option" where
  "getUserLike s inventionId userId =
     (case pair_likes s inventionId userId of [] \<Rightarrow> None | like # _ \<Rightarrow> Some like)"

text \<open>
  The vote of a user on an invention, read the way \<open>getUserLike\<close> reads it, and the
  transition table of the toggle as the specification words it (no-vote, liked,
  disliked; the same vote again retracts it, the opposite vote flips it).
\<close>

datatype vote = NoVote | Liked | Disliked

definition vote_of :: "store \<Rightarrow> int \<Rightarrow> string \<Rightarrow> vote" where
  "vote_of s i u =
     (case getUserLike s i u of
        None \<Rightarrow> NoVote
      | Some l \<Rightarrow> if isLike l then Liked else Disliked)"

fun toggle_spec :: "vote \<Rightarrow> bool \<Rightarrow> vote" where
  "toggle_spec NoVote True = Liked"
| "toggle_spec NoVote False = Disliked"
| "toggle_spec Liked True = NoVote"
| "toggle_spec Liked False = Disliked"
| "toggle_spec Disliked False = NoVote"
| "toggle_spec Disliked True = Liked"

text \<open>At most one Like row per (inventionId, userId) pair.\<close>

definition one_like_per_pair :: "store \<Rightarrow> bool" where
  "one_like_per_pair s = distinct (map (\<lambda>l. (like_inventionId l, like_userId l)) (likes s))"

text \<open>
  The primary key of the likes table and its sequence: ids are unique and none is
  ahead of the sequence.
\<close>

definition likes_pk :: "store \<Rightarrow> bool" where
  "likes_pk s = (distinct (map like_id (likes s)) \<and> list_all (\<lambda>l. like_id l \<le> likes_id_seq s) (likes s))"

text \<open>
  A sequence of toggle requests, each awaited before the next. A request that the
  database rejects surfaces to its caller and the following requests still run.
\<close>

fun toggleLikes :: "(timestamp \<times> InsertLike) list \<Rightarrow> store \<Rightarrow> store" where
  "toggleLikes [] s = s"
| "toggleLikes ((now, like) # calls) s = toggleLikes calls (snd (toggleLike now like s))"

section \<open>Status transition (server/storage.ts)\<close>

text \<open>
  A JavaScript number is passed to the database as its decimal text. The text of a
  number with an integral value below \<open>10^21\<close> in size is its digits; a larger one is
  written with an exponent, and a fraction, NaN and the infinities are no integers
  either: \<open>NonIntegral\<close> stands for any number whose value is not an integer. An
  \<open>integer\<close> parameter holds 32 bits.
\<close>

datatype js_number = Integral int | NonIntegral

definition int4 :: "int \<Rightarrow> bool" where
  "int4 n = (- 2147483648 \<le> n \<and> n \<le> 2147483647)"

fun bind_int4 :: "js_number \<Rightarrow> db_error + int" where
  "bind_int4 (Integral n) =
     (if int4 n then Inr n
      else if \<bar>n\<bar> < 10 ^ 21 then Inl NumericValueOutOfRange
      else Inl InvalidTextRepresentation)"
| "bind_int4 NonIntegral = Inl InvalidTextRepresentation"

text \<open>
  The \<open>fundingAmount\<close> argument: declared \<open>number | undefined\<close>, and the route hands over
  \<open>req.body.fundingAmount\<close> as it comes, so JSON's \<open>null\<close> reaches it too.
  \<open>updateData\<close> always carries \<open>status\<close> and \<open>updatedAt\<close>, and \<open>fundingAmount\<close> when the
  argument is not \<open>undefined\<close>: \<open>funding_column\<close> is what is then written to the column
  (\<open>None\<close>: the key is absent, \<open>Some None\<close>: NULL), or the error of binding the number.
\<close>

datatype funding_arg = Undefined | Null | Amount js_number

fun funding_column :: "funding_arg \<Rightarrow> db_error + int option option" where
  "funding_column Undefined = Inr None"
| "funding_column Null = Inr (Some None)"
| "funding_column (Amount a) =
     (case bind_int4 a of Inl e \<Rightarrow> Inl e | Inr n \<Rightarrow> Inr (Some (Some n)))"

definition set_updateData :: "timestamp \<Rightarrow> string \<Rightarrow> int option option \<Rightarrow> invention \<Rightarrow> invention" where
  "set_updateData now st funding i =
     (let i1 = i\<lparr>status := st, updatedAt := Some now\<rparr>
      in case funding of None \<Rightarrow> i1 | Some amount \<Rightarrow> i1\<lparr>fundingAmount := amount\<rparr>)"

text \<open>
  The update binds its parameters (the values to set, then the id of the \<open>where\<close>), writes
  the columns of the rows whose id matches and returns the first updated row, or
  \<open>undefined\<close>. A statement whose parameters cannot be bound changes nothing.
\<close>

definition updateInventionStatus ::
    "timestamp \<Rightarrow> js_number \<Rightarrow> string \<Rightarrow> funding_arg \<Rightarrow> store
       \<Rightarrow> (db_error + invention option) \<times> store" where
  "updateInventionStatus now ident st fundingAmount' s =
     (case funding_column fundingAmount' of
        Inl e \<Rightarrow> (Inl e, s)
      | Inr funding \<Rightarrow>
          (case bind_int4 ident of
             Inl e \<Rightarrow> (Inl e, s)
           | Inr n \<Rightarrow>
               (let s1 = s\<lparr>inventions :=
                            map (\<lambda>i. if inv_id i = n then set_updateData now st funding i else i)
                              (inventions s)\<rparr>
                in (Inr (case filter (\<lambda>i. inv_id i = n) (inventions s1) of
                           [] \<Rightarrow> None
                         | updatedInvention # _ \<Rightarrow> Some updatedInvention), s1))))"

section \<open>Comment operations (server/storage.ts, server/routes.ts)\<close>

definition insert_comments ::
    "timestamp \<Rightarrow> InsertComment \<Rightarrow> store \<Rightarrow> (db_error + comment) \<times> store" where
  "insert_comments now c s =
     (let n = comments_id_seq s + 1;
          s1 = s\<lparr>comments_id_seq := n\<rparr>;
          newComment = \<lparr>comment_id = n, content = new_content c,
                        comment_inventionId = new_comment_inventionId c,
                        comment_authorId = new_authorId c, comment_createdAt = Some now\<rparr>
      in if n \<in> set (map comment_id (comments s)) then (Inl UniqueViolation, s1)
         else if new_comment_inventionId c \<notin> set (map inv_id (inventions s))
                 \<or> new_authorId c \<notin> set (map user_id (users s))
         then (Inl ForeignKeyViolation, s1)
         else (Inr newComment, s1\<lparr>comments := comments s @ [newComment]\<rparr>))"

text \<open>The result is the new row together with its \<open>author\<close> (the first user with that id).\<close>

definition createComment ::
    "timestamp \<Rightarrow> InsertComment \<Rightarrow> store \<Rightarrow> (db_error + comment \<times> user option) \<times> store" where
  "createComment now c s =
     (case insert_comments now c s of
        (Inl e, s1) \<Rightarrow> (Inl e, s1)
      | (Inr newComment, s1) \<Rightarrow>
          (Inr (newComment,
                case filter (\<lambda>u. user_id u = new_authorId c) (users s1) of
                  [] \<Rightarrow> None | author # _ \<Rightarrow> Some author), s1))"

text \<open>
  The handler of \<open>POST /api/inventions/:id/comments\<close>, after authentication has supplied
  \<open>userId\<close>. \<open>inventionId\<close> is \<open>parseInt(req.params.id)\<close>, \<open>None\<close> for NaN; \<open>body_content\<close>
  is the \<open>content\<close> member of the request body, \<open>None\<close> when it is missing or not a
  string. \<open>insertCommentSchema.parse\<close> accepts a string \<open>content\<close> and a number
  \<open>inventionId\<close>; whatever is thrown inside the handler is answered with status 500.
\<close>

datatype comment_response =
  CommentCreated comment "user option"
| ServerError string

definition status_code :: "comment_response \<Rightarrow> nat" where
  "status_code r = (case r of CommentCreated _ _ \<Rightarrow> 201 | ServerError _ \<Rightarrow> 500)"

definition post_comment ::
    "timestamp \<Rightarrow> string \<Rightarrow> int option \<Rightarrow> string option \<Rightarrow> store \<Rightarrow> comment_response \<times> store" where
  "post_comment now userId inventionId body_content s =
     (case (body_content, inventionId) of
        (Some text, Some ident) \<Rightarrow>
          (case createComment now
                  \<lparr>new_content = text, new_comment_inventionId = ident, new_authorId = userId\<rparr> s of
             (Inr (c, a), s1) \<Rightarrow> (CommentCreated c a, s1)
           | (Inl _, s1) \<Rightarrow> (ServerError ''Failed to create comment'', s1))
      | _ \<Rightarrow> (ServerError ''Failed to create comment'', s))"

section \<open>Statistics (server/storage.ts)\<close>

record stats =
  total :: nat
  pending :: nat
  approved :: nat
  rejected :: nat

definition getStats :: "store \<Rightarrow> stats" where
  "getStats s =
     \<lparr>total = length (inventions s),
      pending = length (filter (\<lambda>i. status i = ''pending'') (inventions s)),
      approved = length (filter (\<lambda>i. status i = ''approved'') (inventions s)),
      rejected = length (filter (\<lambda>i. status i = ''rejected'') (inventions s))\<rparr>"

text \<open>The values of the status column that the schema enumerates.\<close>

definition status_enum :: "string list" where
  "status_enum = [''pending'', ''under_review'', ''approved'', ''rejected'']"

section \<open>Listing inventions\<close>

text \<open>
  The repository holds \<open>getInventions\<close> with counts in two implementations: the grouped
  left-join query of \<open>src/server/storage.ts\<close> (its first \<open>DatabaseStorage\<close>) and the per-row
  loop of \<open>src/unnamed/part_005\<close>. Both are embedded, as \<open>getInventions_join\<close> and
  \<open>getInventions_loop\<close>.

  A listed invention: the invention's columns, its \<open>author\<close> (absent where a left join
  found no user) and the \<open>_count\<close> object. The grouped query can be rejected by the
  database, so its result is an error or the list.
\<close>

record counts =
  n_likes :: nat
  n_dislikes :: nat
  n_comments :: nat
  n_files :: nat

record listed_invention =
  row_invention :: invention
  author :: "user option"
  row_count :: counts

text \<open>
  \<open>filters?.status\<close> where it is truthy (present and not the empty string), and
  \<open>filters?.tags\<close> where \<open>filters.tags.length > 0\<close>.
\<close>

definition status_given :: "filters option \<Rightarrow> string option" where
  "status_given flt =
     (case flt of
        None \<Rightarrow> None
      | Some f \<Rightarrow> (case f_status f of
                    None \<Rightarrow> None
                  | Some st \<Rightarrow> if st = [] then None else Some st))"

definition tags_given :: "filters option \<Rightarrow> string list option" where
  "tags_given flt =
     (case flt of
        None \<Rightarrow> None
      | Some f \<Rightarrow> (case f_tags f of
                    None \<Rightarrow> None
                  | Some ts \<Rightarrow> if length ts > 0 then Some ts else None))"

text \<open>
  \<open>orderBy(desc(inventions.createdAt))\<close>: larger timestamps first, NULL before any
  value. Rows with equal keys keep their relative order (SQL leaves it open).
\<close>

fun created_before :: "timestamp option \<Rightarrow> timestamp option \<Rightarrow> bool" where
  "created_before None _ = True"
| "created_before (Some a) None = False"
| "created_before (Some a) (Some b) = (b \<le> a)"

fun insert_desc :: "('a \<Rightarrow> timestamp option) \<Rightarrow> 'a \<Rightarrow> 'a list \<Rightarrow> 'a list" where
  "insert_desc k x [] = [x]"
| "insert_desc k x (y # ys) =
     (if created_before (k x) (k y) then x # y # ys else y # insert_desc k x ys)"

definition order_by_desc :: "('a \<Rightarrow> timestamp option) \<Rightarrow> 'a list \<Rightarrow> 'a list" where
  "order_by_desc k xs = foldr (insert_desc k) xs []"

subsection \<open>The per-row loop (src/unnamed/part_005)\<close>

text \<open>\<open>inventions INNER JOIN users ON inventions.author_id = users.id\<close>.\<close>

definition inner_join_users :: "store \<Rightarrow> (invention \<times> user) list" where
  "inner_join_users s =
     concat (map (\<lambda>i. map (\<lambda>u. (i, u)) (filter (\<lambda>u. authorId i = user_id u) (users s)))
               (inventions s))"

text \<open>
  The body of \<open>for (const inv of allInventions)\<close>: the two \<open>continue\<close> tests on the
  invention of the row, then the three count queries and the object pushed onto
  \<open>results\<close>.
\<close>

definition status_mismatch :: "filters option \<Rightarrow> invention \<Rightarrow> bool" where
  "status_mismatch flt i =
     (case status_given flt of Some st \<Rightarrow> status i \<noteq> st | None \<Rightarrow> False)"

definition no_matching_tag :: "filters option \<Rightarrow> invention \<Rightarrow> bool" where
  "no_matching_tag flt i =
     (case tags_given flt of
        Some ts \<Rightarrow> \<not> list_ex (\<lambda>tag. tag \<in> set (tags i)) ts
      | None \<Rightarrow> False)"

definition with_counts :: "store \<Rightarrow> invention \<times> user \<Rightarrow> listed_invention" where
  "with_counts s row =
     (let likesData = map isLike (filter (\<lambda>l. like_inventionId l = inv_id (fst row)) (likes s));
          commentsCount = length (filter (\<lambda>c. comment_inventionId c = inv_id (fst row)) (comments s));
          filesCount = length (filter (\<lambda>f. file_inventionId f = inv_id (fst row)) (files s));
          likesCount = length (filter (\<lambda>l. l = True) likesData);
          dislikesCount = length (filter (\<lambda>l. l = False) likesData)
      in \<lparr>row_invention = fst row, author = Some (snd row),
          row_count = \<lparr>n_likes = likesCount, n_dislikes = dislikesCount,
                       n_comments = commentsCount, n_files = filesCount\<rparr>\<rparr>)"

fun getInventions_loop_over ::
    "filters option \<Rightarrow> store \<Rightarrow> (invention \<times> user) list \<Rightarrow> listed_invention list" where
  "getInventions_loop_over flt s [] = []"
| "getInventions_loop_over flt s (row # rest) =
     (if status_mismatch flt (fst row) then getInventions_loop_over flt s rest
      else if no_matching_tag flt (fst row) then getInventions_loop_over flt s rest
      else with_counts s row # getInventions_loop_over flt s rest)"

definition getInventions_loop :: "filters option \<Rightarrow> store \<Rightarrow> listed_invention list" where
  "getInventions_loop flt s =
     getInventions_loop_over flt s (order_by_desc (\<lambda>r. createdAt (fst r)) (inner_join_users s))"

subsection \<open>The grouped left-join query (src/server/storage.ts)\<close>

text \<open>
  \<open>xs LEFT JOIN ys ON on\<close>: every left row with each matching right row, or once with
  NULLs when none matches.
\<close>

definition left_join :: "'a list \<Rightarrow> 'b list \<Rightarrow> ('a \<Rightarrow> 'b \<Rightarrow> bool) \<Rightarrow> ('a \<times> 'b option) list" where
  "left_join xs ys on =
     concat (map (\<lambda>x. case filter (on x) ys of
                         [] \<Rightarrow> [(x, None)]
                       | m # ms \<Rightarrow> map (\<lambda>y. (x, Some y)) (m # ms)) xs)"

record joined_row =
  j_invention :: invention
  j_user :: "user option"
  j_like :: "like option"
  j_comment :: "comment option"
  j_file :: "file_info option"

definition joined_rows :: "store \<Rightarrow> joined_row list" where
  "joined_rows s =
     map (\<lambda>((((i, u), l), c), f).
            \<lparr>j_invention = i, j_user = u, j_like = l, j_comment = c, j_file = f\<rparr>)
       (left_join
          (left_join
             (left_join
                (left_join (inventions s) (users s) (\<lambda>i u. authorId i = user_id u))
                (likes s) (\<lambda>r l. inv_id (fst r) = like_inventionId l))
             (comments s) (\<lambda>r c. inv_id (fst (fst r)) = comment_inventionId c))
          (files s) (\<lambda>r f. inv_id (fst (fst (fst r))) = file_inventionId f))"

text \<open>
  The query builder keeps one WHERE condition in its configuration; \<open>.where(c)\<close> stores
  \<open>c\<close> there, in place of what an earlier call stored. A condition is SQL text with
  parameters: \<open>eq(inventions.status, st)\<close> is \<open>status = $1\<close>, and the template
  \<open>inventions.tags && ${filters.tags}\<close> writes the elements of the JavaScript array as a
  parenthesised list of parameters, \<open>tags && ($1, ..., $n)\<close>.
\<close>

datatype condition = StatusEq string | TagsOverlap "string list"

record select_query =
  q_where :: "condition option"

definition where_q :: "condition \<Rightarrow> select_query \<Rightarrow> select_query" where
  "where_q c query = query\<lparr>q_where := Some c\<rparr>"

text \<open>
  With one parameter, \<open>tags && ($1)\<close> is the overlap of two arrays and the text of the
  parameter is read as an array literal. A text that is empty or starts with a
  character other than white space, \<open>{\<close> or \<open>[\<close> is no array literal. A text
  \<open>{e1,...,en}\<close> whose elements are not empty, hold none of white space, braces, comma,
  double quote and backslash, and are not the word NULL, is the array of these elements
  (\<open>{}\<close> the empty array). What the database's input routine makes of any other text
  (quoting, escapes, white space, nesting, NULL, dimensions) is the parameter \<open>other\<close>;
  an array element is \<open>None\<close> when it is NULL.
\<close>

definition array_space :: "char \<Rightarrow> bool" where
  "array_space c = (c \<in> set [CHR '' '', CHR 0x09, CHR 0x0A, CHR 0x0B, CHR 0x0C, CHR 0x0D])"

definition plain_char :: "char \<Rightarrow> bool" where
  "plain_char c =
     (\<not> array_space c \<and> c \<notin> set [CHR ''{'', CHR ''}'', CHR '','', CHR 0x22, CHR 0x5C])"

definition null_word :: "string \<Rightarrow> bool" where
  "null_word e =
     (case e of
        [a, b, c, d] \<Rightarrow> a \<in> set ''nN'' \<and> b \<in> set ''uU'' \<and> c \<in> set ''lL'' \<and> d \<in> set ''lL''
      | _ \<Rightarrow> False)"

fun split_on :: "char \<Rightarrow> string \<Rightarrow> string list" where
  "split_on d [] = [[]]"
| "split_on d (c # cs) =
     (if c = d then [] # split_on d cs
      else (case split_on d cs of [] \<Rightarrow> [[c]] | e # es \<Rightarrow> (c # e) # es))"

definition plain_array_literal :: "string \<Rightarrow> string list option" where
  "plain_array_literal str =
     (case str of
        [] \<Rightarrow> None
      | c # rest \<Rightarrow>
          if c \<noteq> CHR ''{'' \<or> rest = [] then None
          else if last rest \<noteq> CHR ''}'' then None
          else (let body = butlast rest
                in if body = [] then Some []
                   else (let es = split_on CHR '','' body
                         in if list_all (\<lambda>e. e \<noteq> [] \<and> list_all plain_char e \<and> \<not> null_word e) es
                            then Some es else None)))"

definition array_in :: "(string \<Rightarrow> string option list option) \<Rightarrow> string \<Rightarrow> string option list option" where
  "array_in other str =
     (case str of
        [] \<Rightarrow> None
      | c # _ \<Rightarrow>
          if \<not> array_space c \<and> c \<noteq> CHR ''{'' \<and> c \<noteq> CHR ''['' then None
          else (case plain_array_literal str of
                  Some es \<Rightarrow> Some (map Some es)
                | None \<Rightarrow> other str))"

text \<open>
  Binding the parameters of a condition. A list of two or more parameters is a row, and
  there is no operator \<open>&&\<close> between an array and a row; an empty list is no SQL (the
  caller never sends one).
\<close>

datatype bound_condition = StatusIs string | TagsOverlapArray "string option list"

fun bind_params ::
    "(string \<Rightarrow> string option list option) \<Rightarrow> condition \<Rightarrow> db_error + bound_condition" where
  "bind_params other (StatusEq st) = Inr (StatusIs st)"
| "bind_params other (TagsOverlap []) = Inl SyntaxError"
| "bind_params other (TagsOverlap [t]) =
     (case array_in other t of
        None \<Rightarrow> Inl InvalidTextRepresentation
      | Some a \<Rightarrow> Inr (TagsOverlapArray a))"
| "bind_params other (TagsOverlap (t # u # ts)) = Inl UndefinedFunction"

fun holds :: "bound_condition \<Rightarrow> joined_row \<Rightarrow> bool" where
  "holds (StatusIs st) r = (status (j_invention r) = st)"
| "holds (TagsOverlapArray a) r = list_ex (\<lambda>tag. Some tag \<in> set a) (tags (j_invention r))"

text \<open>
  \<open>GROUP BY inventions.id, users.id\<close> and the aggregates of one group:
  \<open>COUNT(CASE WHEN is_like = true THEN 1 END)\<close> counts the rows of the group whose like
  is a like, \<open>COUNT(DISTINCT comments.id)\<close> the different non-null comment ids.
\<close>

definition group_key :: "joined_row \<Rightarrow> int \<times> string option" where
  "group_key r = (inv_id (j_invention r), map_option user_id (j_user r))"

definition aggregate :: "joined_row \<Rightarrow> joined_row list \<Rightarrow> listed_invention" where
  "aggregate r g =
     \<lparr>row_invention = j_invention r, author = j_user r,
      row_count =
        \<lparr>n_likes = length (filter (\<lambda>x. map_option isLike (j_like x) = Some True) g),
         n_dislikes = length (filter (\<lambda>x. map_option isLike (j_like x) = Some False) g),
         n_comments = length (remdups (concat (map (\<lambda>x. case j_comment x of
                                                          None \<Rightarrow> [] | Some c \<Rightarrow> [comment_id c]) g))),
         n_files = length (remdups (concat (map (\<lambda>x. case j_file x of
                                                       None \<Rightarrow> [] | Some f \<Rightarrow> [file_id f]) g)))\<rparr>\<rparr>"

definition group_rows :: "joined_row list \<Rightarrow> listed_invention list" where
  "group_rows rows =
     concat (map (\<lambda>k. case filter (\<lambda>r. group_key r = k) rows of
                         [] \<Rightarrow> []
                       | r # rs \<Rightarrow> [aggregate r (r # rs)])
               (remdups (map group_key rows)))"

text \<open>
  Running the query: the condition is bound first, and a query whose condition cannot
  be bound returns no row but the error.
\<close>

definition run_query ::
    "(string \<Rightarrow> string option list option) \<Rightarrow> store \<Rightarrow> select_query
       \<Rightarrow> db_error + listed_invention list" where
  "run_query other s query =
     (case (case q_where query of
              None \<Rightarrow> Inr (\<lambda>r. True)
            | Some c \<Rightarrow> (case bind_params other c of
                           Inl e \<Rightarrow> Inl e
                         | Inr b \<Rightarrow> Inr (holds b))) of
        Inl e \<Rightarrow> Inl e
      | Inr keep \<Rightarrow>
          Inr (order_by_desc (\<lambda>r. createdAt (row_invention r))
                 (group_rows (filter keep (joined_rows s)))))"

definition getInventions_join ::
    "(string \<Rightarrow> string option list option) \<Rightarrow> filters option \<Rightarrow> store
       \<Rightarrow> db_error + listed_invention list" where
  "getInventions_join other flt s =
     (let query = \<lparr>q_where = None\<rparr>;
          query = (case status_given flt of
                     Some st \<Rightarrow> where_q (StatusEq st) query
                   | None \<Rightarrow> query);
          query = (case tags_given flt of
                     Some ts \<Rightarrow> where_q (TagsOverlap ts) query
                   | None \<Rightarrow> query)
      in run_query other s query)"


section \<open>Example stores\<close>

definition demo_user :: "string \<Rightarrow> user" where
  "demo_user uid =
     \<lparr>user_id = uid, email = None, firstName = None, lastName = None,
      profileImageUrl = None, role = ''user'', user_createdAt = Some 1, user_updatedAt = Some 1\<rparr>"

definition demo_invention :: "int \<Rightarrow> string \<Rightarrow> string list \<Rightarrow> string \<Rightarrow> invention" where
  "demo_invention n uid ts st =
     \<lparr>inv_id = n, title = ''T'', description = ''D'', tags = ts, status = st,
      fundingAmount = None, authorId = uid, createdAt = Some (nat n), updatedAt = Some (nat n)\<rparr>"

definition demo_like :: "int \<Rightarrow> int \<Rightarrow> string \<Rightarrow> bool \<Rightarrow> like" where
  "demo_like n i uid b =
     \<lparr>like_id = n, like_inventionId = i, like_userId = uid, isLike = b, like_createdAt = Some 5\<rparr>"

definition demo_comment :: "int \<Rightarrow> int \<Rightarrow> string \<Rightarrow> comment" where
  "demo_comment n i uid =
     \<lparr>comment_id = n, content = ''ok'', comment_inventionId = i, comment_authorId = uid,
      comment_createdAt = Some 6\<rparr>"

definition demo_file :: "int \<Rightarrow> int \<Rightarrow> file_info" where
  "demo_file n i =
     \<lparr>file_id = n, filename = ''f'', originalName = ''a.pdf'', mimeType = ''application/pdf'',
      file_size = 10, file_inventionId = i, uploadedAt = Some 2\<rparr>"

text \<open>Invention 1 with three like rows (two likes, one dislike), four comments, two files.\<close>

definition counts_store :: store where
  "counts_store =
     \<lparr>users = [demo_user ''u1'', demo_user ''u2'', demo_user ''u3''],
      inventions = [demo_invention 1 ''u1'' [''IoT''] ''pending''],
      files = [demo_file 1 1, demo_file 2 1],
      comments = [demo_comment 1 1 ''u1'', demo_comment 2 1 ''u2'', demo_comment 3 1 ''u3'',
                  demo_comment 4 1 ''u2''],
      likes = [demo_like 1 1 ''u1'' True, demo_like 2 1 ''u2'' True, demo_like 3 1 ''u3'' False],
      comments_id_seq = 4, likes_id_seq = 3\<rparr>"

text \<open>
  Invention 1 is under review with tags AI/ML and IoT, invention 2 is approved with tag
  Biotech, invention 3 is pending without tags.
\<close>

definition filter_store :: store where
  "filter_store =
     \<lparr>users = [demo_user ''u1''],
      inventions = [demo_invention 1 ''u1'' [''AI/ML'', ''IoT''] ''under_review'',
                    demo_invention 2 ''u1'' [''Biotech''] ''approved'',
                    demo_invention 3 ''u1'' [] ''pending''],
      files = [], comments = [], likes = [],
      comments_id_seq = 0, likes_id_seq = 0\<rparr>"

section \<open>Ordering and the per-row loop\<close>

lemma set_insert_desc: "set (insert_desc k x xs) = insert x (set xs)"
  by (induction xs) auto

lemma set_order_by_desc: "set (order_by_desc k xs) = set xs"
  unfolding order_by_desc_def by (induction xs) (simp_all add: set_insert_desc)

text \<open>The loop keeps the rows that pass both tests, in order, each with its counts.\<close>

lemma loop_over_eq:
  "getInventions_loop_over flt s rows =
     map (with_counts s) (filter (\<lambda>r. \<not> status_mismatch flt (fst r) \<and> \<not> no_matching_tag flt (fst r)) rows)"
  by (induction rows) simp_all

lemma set_inner_join_users:
  "set (inner_join_users s) = {(i, u). i \<in> set (inventions s) \<and> u \<in> set (users s) \<and> authorId i = user_id u}"
  unfolding inner_join_users_def by auto

lemma set_getInventions_loop:
  "set (getInventions_loop flt s) =
     with_counts s ` {(i, u). i \<in> set (inventions s) \<and> u \<in> set (users s) \<and> authorId i = user_id u
                         \<and> \<not> status_mismatch flt i \<and> \<not> no_matching_tag flt i}"
  unfolding getInventions_loop_def loop_over_eq
  by (auto simp: set_order_by_desc set_inner_join_users)

text \<open>
  The per-row loop reports the true tallies, lists no invention without its author,
  matches a status filter exactly, and lists an invention of the store exactly when its
  author is stored and it passes both tests.
\<close>

lemma loop_counts:
  assumes "r \<in> set (getInventions_loop flt s)"
  shows "n_likes (row_count r) = length (filter (\<lambda>l. like_inventionId l = inv_id (row_invention r) \<and> isLike l) (likes s))"
    and "n_dislikes (row_count r) = length (filter (\<lambda>l. like_inventionId l = inv_id (row_invention r) \<and> \<not> isLike l) (likes s))"
    and "n_comments (row_count r) = length (filter (\<lambda>c. comment_inventionId c = inv_id (row_invention r)) (comments s))"
    and "n_files (row_count r) = length (filter (\<lambda>f. file_inventionId f = inv_id (row_invention r)) (files s))"
  using assms unfolding set_getInventions_loop
  by (auto simp: with_counts_def filter_map comp_def conj_commute)


lemma loop_status_exact:
  assumes "r \<in> set (getInventions_loop flt s)" "status_given flt = Some st"
  shows "status (row_invention r) = st"
  using assms unfolding set_getInventions_loop by (auto simp: with_counts_def status_mismatch_def)

lemma loop_listed_iff:
  "(i \<in> row_invention ` set (getInventions_loop flt s))
     = (i \<in> set (inventions s) \<and> authorId i \<in> set (map user_id (users s))
        \<and> \<not> status_mismatch flt i \<and> \<not> no_matching_tag flt i)"
  unfolding set_getInventions_loop
  by (auto simp: image_iff with_counts_def Let_def)

section \<open>The grouped left-join query\<close>

text \<open>
  Every listed row of the query is the aggregate of a group of joined rows and takes its
  invention and its author from a row of that group, a row that satisfies the condition.
\<close>

lemma in_group_rows_D:
  assumes "x \<in> set (group_rows rows)"
  obtains k r rs where "filter (\<lambda>y. group_key y = k) rows = r # rs" "x = aggregate r (r # rs)"
proof -
  from assms obtain k where
    x: "x \<in> set (case filter (\<lambda>y. group_key y = k) rows of [] \<Rightarrow> [] | r # rs \<Rightarrow> [aggregate r (r # rs)])"
    unfolding group_rows_def set_concat set_map by blast
  show thesis
  proof (cases "filter (\<lambda>y. group_key y = k) rows")
    case Nil
    with x show ?thesis by simp
  next
    case (Cons r rs)
    with x have "x = aggregate r (r # rs)" by simp
    with Cons show ?thesis by (rule that)
  qed
qed

lemma group_rows_from_row:
  assumes "x \<in> set (group_rows rows)"
  obtains r where "r \<in> set rows" "row_invention x = j_invention r" "author x = j_user r"
proof -
  from assms obtain k r rs where f: "filter (\<lambda>y. group_key y = k) rows = r # rs"
    and x: "x = aggregate r (r # rs)"
    by (rule in_group_rows_D)
  have "r \<in> set (filter (\<lambda>y. group_key y = k) rows)" unfolding f by simp
  then have "r \<in> set rows" by simp
  then show thesis using x by (intro that [of r]) (simp_all add: aggregate_def)
qed




lemma run_query_rows:
  assumes "run_query other s query = Inr rs" "x \<in> set rs"
  obtains r where "r \<in> set (joined_rows s)" "row_invention x = j_invention r" "author x = j_user r"
    "\<forall>b. q_where query = Some (StatusEq b) \<longrightarrow> status (j_invention r) = b"
proof -
  from assms(1) obtain keep where
    k: "(case q_where query of
              None \<Rightarrow> Inr (\<lambda>r. True)
            | Some c \<Rightarrow> (case bind_params other c of
                           Inl e \<Rightarrow> Inl e
                         | Inr b \<Rightarrow> Inr (holds b))) = Inr keep"
    and rs: "rs = order_by_desc (\<lambda>r. createdAt (row_invention r))
                 (group_rows (filter keep (joined_rows s)))"
    unfolding run_query_def by (auto split: sum.splits)
  from assms(2) have "x \<in> set (group_rows (filter keep (joined_rows s)))"
    unfolding rs by (simp add: set_order_by_desc)
  then obtain r where r: "r \<in> set (filter keep (joined_rows s))"
    "row_invention x = j_invention r" "author x = j_user r"
    by (rule group_rows_from_row)
  have "status (j_invention r) = b" if "q_where query = Some (StatusEq b)" for b
    using k r(1) that by auto
  then have "\<forall>b. q_where query = Some (StatusEq b) \<longrightarrow> status (j_invention r) = b"
    by blast
  with r show thesis by (intro that [of r]) simp_all
qed


text \<open>
  With a status filter and no tag filter the query lists inventions of that status
  only.
\<close>

lemma join_status_only_exact:
  assumes "status_given flt = Some st" "tags_given flt = None"
    "getInventions_join other flt s = Inr rs" "x \<in> set rs"
  shows "status (row_invention x) = st"
proof -
  have q: "run_query other s \<lparr>q_where = Some (StatusEq st)\<rparr> = Inr rs"
    using assms(1,2,3) by (simp add: getInventions_join_def where_q_def)
  from q assms(4) obtain r where "r \<in> set (joined_rows s)"
    "row_invention x = j_invention r" "author x = j_user r"
    "\<forall>b. q_where \<lparr>q_where = Some (StatusEq st)\<rparr> = Some (StatusEq b) \<longrightarrow> status (j_invention r) = b"
    by (rule run_query_rows)
  then show ?thesis by simp
qed

text \<open>
  With a tag filter the query is rejected: for every list of two or more tags, and for
  a single tag that starts like no array literal.
\<close>

lemma join_tag_list_rejected:
  assumes "tags_given flt = Some (t # u # ts)"
  shows "getInventions_join other flt s = Inl UndefinedFunction"
  using assms
  by (simp add: getInventions_join_def run_query_def where_q_def Let_def split: option.splits)

lemma join_ordinary_tag_rejected:
  assumes "tags_given flt = Some [c # cs]"
      and "\<not> array_space c" "c \<noteq> CHR ''{''" "c \<noteq> CHR ''[''"
  shows "getInventions_join other flt s = Inl InvalidTextRepresentation"
  using assms
  by (simp add: getInventions_join_def run_query_def where_q_def array_in_def Let_def
           split: option.splits)

section \<open>Counts\<close>

text \<open>
  C1. listInventions reports, for an invention with three like rows (two likes, one
  dislike), four comments and two files, the counts likes 2, dislikes 1, comments 4,
  files 2. The per-row loop does (and in general, \<open>loop_counts\<close>). The grouped query
  counts likes over the rows of the join, where every like row occurs once for each
  pair of a comment and a file: it reports likes 16 and dislikes 8.
\<close>

theorem getInventions_join_counts_fan_out:
  "map_sum id (map row_count) (getInventions_join other None counts_store)
     = Inr [\<lparr>n_likes = 16, n_dislikes = 8, n_comments = 4, n_files = 2\<rparr>]
   \<and> map row_count (getInventions_loop None counts_store)
     = [\<lparr>n_likes = 2, n_dislikes = 1, n_comments = 4, n_files = 2\<rparr>]"
  by code_simp

section \<open>Filters\<close>

lemma tags_given_cases:
  "tags_given flt = (case flt of None \<Rightarrow> None
                     | Some f \<Rightarrow> (case f_tags f of None \<Rightarrow> None
                                 | Some T \<Rightarrow> if T = [] then None else Some T))"
  by (simp add: tags_given_def split: option.splits)

text \<open>
  The tag filter of the per-row loop is an overlap: an invention of the store whose
  author is stored and which the status filter, if any, admits is listed iff the tag
  list is absent, empty, or holds one of its tags.
\<close>

lemma loop_tag_filter_overlap:
  assumes i: "i \<in> set (inventions s)"
      and a: "authorId i \<in> set (map user_id (users s))"
      and st: "status_given flt = None \<or> status_given flt = Some (status i)"
  shows "(i \<in> row_invention ` set (getInventions_loop flt s))
           = (case flt of
                None \<Rightarrow> True
              | Some f \<Rightarrow> (case f_tags f of
                            None \<Rightarrow> True
                          | Some T \<Rightarrow> T = [] \<or> (\<exists>t\<in>set (tags i). t \<in> set T)))"
proof -
  have m: "\<not> status_mismatch flt i"
    using st by (auto simp: status_mismatch_def)
  have t: "(\<not> no_matching_tag flt i)
         = (case flt of
                None \<Rightarrow> True
              | Some f \<Rightarrow> (case f_tags f of
                            None \<Rightarrow> True
                          | Some T \<Rightarrow> T = [] \<or> (\<exists>t\<in>set (tags i). t \<in> set T)))"
    by (auto simp: no_matching_tag_def tags_given_cases list_ex_iff split: option.splits)
  have "(i \<in> row_invention ` set (getInventions_loop flt s)) = (\<not> no_matching_tag flt i)"
    unfolding loop_listed_iff using i a m by simp
  with t show ?thesis by simp
qed

text \<open>
  C5. The tag filter is an overlap: an invention with the tags AI/ML and IoT is listed
  for the tags IoT, Energy and not for the tag Biotech. The per-row loop does that
  (\<open>loop_tag_filter_overlap\<close> in general). The grouped query is rejected by the database
  for both filters, since its tag list reaches the database as a row of parameters and
  not as an array: it lists nothing.
\<close>

theorem getInventions_join_tag_filter_rejected:
  "getInventions_join other (Some \<lparr>f_status = None, f_tags = Some [''IoT'', ''Energy'']\<rparr>) filter_store
     = Inl UndefinedFunction
   \<and> getInventions_join other (Some \<lparr>f_status = None, f_tags = Some [''Biotech'']\<rparr>) filter_store
     = Inl InvalidTextRepresentation
   \<and> map (\<lambda>r. inv_id (row_invention r))
       (getInventions_loop (Some \<lparr>f_status = None, f_tags = Some [''IoT'', ''Energy'']\<rparr>) filter_store)
     = [1]
   \<and> map (\<lambda>r. inv_id (row_invention r))
       (getInventions_loop (Some \<lparr>f_status = None, f_tags = Some [''Biotech'']\<rparr>) filter_store)
     = [2]"
  by code_simp

text \<open>
  C6. With the status filter \<open>approved\<close> every listed invention is approved, also when
  a tag filter is given with it. The per-row loop does that (\<open>loop_status_exact\<close>), and
  so does the grouped query for a status filter alone (\<open>join_status_only_exact\<close>). With
  a tag filter the grouped query calls \<open>.where\<close> a second time, which replaces the status
  condition: filtering for status approved and the one tag \<open>{IoT}\<close>, which the database
  reads as the array of IoT, lists invention 1, which is under review.
\<close>

theorem getInventions_join_status_overridden:
  "map_sum id (map (\<lambda>r. (inv_id (row_invention r), status (row_invention r))))
     (getInventions_join other
        (Some \<lparr>f_status = Some ''approved'', f_tags = Some [''{IoT}'']\<rparr>) filter_store)
     = Inr [(1, ''under_review'')]
   \<and> getInventions_loop (Some \<lparr>f_status = Some ''approved'', f_tags = Some [''{IoT}'']\<rparr>) filter_store
     = []"
  by code_simp

section \<open>Authors\<close>



section \<open>The toggle\<close>

lemma pair_likes_Nil_iff:
  "pair_likes s i u = [] \<longleftrightarrow> (i, u) \<notin> set (map (\<lambda>l. (like_inventionId l, like_userId l)) (likes s))"
  unfolding pair_likes_def by (auto simp: filter_empty_conv)

lemma distinct_map_update_same_key:
  "distinct (map k xs) \<Longrightarrow> (\<And>x. k (g x) = k x) \<Longrightarrow> distinct (map k (map (\<lambda>x. if P x then g x else x) xs))"
proof -
  assume d: "distinct (map k xs)" and g: "\<And>x. k (g x) = k x"
  have eq: "map k (map (\<lambda>x. if P x then g x else x) xs) = map k xs"
    by (induction xs) (simp_all add: g)
  show ?thesis by (subst eq) (rule d)
qed

lemma pair_likes_Cons_D:
  assumes "pair_likes s i u = existing # rest"
  shows "existing \<in> set (likes s)" "like_inventionId existing = i" "like_userId existing = u"
proof -
  have "existing \<in> set (pair_likes s i u)" using assms by simp
  then show "existing \<in> set (likes s)" "like_inventionId existing = i" "like_userId existing = u"
    by (simp_all add: pair_likes_def)
qed

lemma same_id_same_row:
  assumes "distinct (map like_id (likes s))" "l \<in> set (likes s)" "e \<in> set (likes s)"
    "like_id l = like_id e"
  shows "l = e"
  using assms by (meson distinct_map inj_onD)

lemma distinct_key_filter_le1:
  "distinct (map k xs) \<Longrightarrow> filter (\<lambda>x. k x = v) xs = y # ys \<Longrightarrow> ys = []"
proof (induction xs arbitrary: y ys)
  case Nil then show ?case by simp
next
  case (Cons a xs)
  show ?case
  proof (cases "k a = v")
    case True
    with Cons.prems have "v \<notin> k ` set xs" by auto
    then have "filter (\<lambda>x. k x = v) xs = []" by (auto simp: filter_empty_conv)
    with Cons.prems True show ?thesis by simp
  next
    case False
    with Cons show ?thesis by simp
  qed
qed

lemma one_like_per_pair_single:
  assumes "one_like_per_pair s" "pair_likes s i u = existing # rest"
  shows "rest = []"
proof -
  have "filter (\<lambda>l. (like_inventionId l, like_userId l) = (i, u)) (likes s) = existing # rest"
    using assms(2) by (simp add: pair_likes_def)
  with assms(1) show ?thesis
    unfolding one_like_per_pair_def by (rule distinct_key_filter_le1)
qed

lemma filter_map_unaffected:
  assumes "\<And>x. x \<in> set xs \<Longrightarrow> P x \<Longrightarrow> \<not> Q x" and "\<And>x. P (g x) = P x"
  shows "filter P (map (\<lambda>x. if Q x then g x else x) xs) = filter P xs"
  using assms(1) by (induction xs) (auto simp: assms(2))

lemma toggleLike_one_like_per_pair:
  assumes "one_like_per_pair s"
  shows "one_like_per_pair (snd (toggleLike now like s))"
proof (cases "pair_likes s (new_inventionId like) (new_userId like)")
  case Nil
  then have fresh: "(new_inventionId like, new_userId like)
      \<notin> set (map (\<lambda>l. (like_inventionId l, like_userId l)) (likes s))"
    by (simp add: pair_likes_Nil_iff)
  show ?thesis
    using assms fresh Nil
    by (auto simp: toggleLike_def insert_likes_def one_like_per_pair_def Let_def)
next
  case (Cons existing rest)
  show ?thesis
  proof (cases "isLike existing = new_isLike like")
    case True
    with Cons assms show ?thesis
      by (simp add: toggleLike_def one_like_per_pair_def distinct_map_filter)
  next
    case False
    have "distinct (map (\<lambda>l. (like_inventionId l, like_userId l))
            (map (\<lambda>l. if like_id l = like_id existing then l\<lparr>isLike := new_isLike like\<rparr> else l) (likes s)))"
      using assms unfolding one_like_per_pair_def
      by (rule distinct_map_update_same_key) simp
    with Cons False show ?thesis
      by (simp add: toggleLike_def one_like_per_pair_def)
  qed
qed

text \<open>The toggle keeps the like ids unique and behind their sequence.\<close>

lemma toggleLike_likes_pk:
  assumes "likes_pk s"
  shows "likes_pk (snd (toggleLike now like s))"
proof (cases "pair_likes s (new_inventionId like) (new_userId like)")
  case Nil
  have "\<forall>l\<in>set (likes s). like_id l \<le> likes_id_seq s"
    using assms by (simp add: likes_pk_def list_all_iff)
  then show ?thesis
    using assms Nil
    by (fastforce simp: toggleLike_def insert_likes_def likes_pk_def Let_def list_all_iff)
next
  case (Cons existing rest)
  show ?thesis
  proof (cases "isLike existing = new_isLike like")
    case True
    with Cons assms show ?thesis
      by (auto simp: toggleLike_def likes_pk_def distinct_map_filter list_all_iff)
  next
    case False
    have "distinct (map like_id
            (map (\<lambda>l. if like_id l = like_id existing
                       then l\<lparr>isLike := new_isLike like\<rparr> else l) (likes s)))"
      using assms unfolding likes_pk_def
      by (intro distinct_map_update_same_key) simp_all
    with Cons False assms show ?thesis
      by (auto simp: toggleLike_def likes_pk_def list_all_iff)
  qed
qed

text \<open>
  C2. toggleLike is the three-state toggle of the pair (invention, user): from no-vote
  the action inserts a row with the given isLike; from liked, action true deletes the
  row and action false sets its isLike to false; from disliked, action false deletes
  the row and action true sets its isLike to true. The vote after the call is the one
  the transition table gives: the same vote again cancels it, the opposite vote flips
  it. The pair is one of a stored invention and a stored user (the foreign keys of the
  likes table), in a store with one row per pair at most, whose like ids are unique and
  not ahead of their sequence.
\<close>

theorem toggleLike_three_state:
  assumes one: "one_like_per_pair s"
      and pk: "likes_pk s"
      and inv: "new_inventionId like \<in> set (map inv_id (inventions s))"
      and usr: "new_userId like \<in> set (map user_id (users s))"
  shows "fst (toggleLike now like s) = None
       \<and> vote_of (snd (toggleLike now like s)) (new_inventionId like) (new_userId like)
           = toggle_spec (vote_of s (new_inventionId like) (new_userId like)) (new_isLike like)
       \<and> likes (snd (toggleLike now like s))
           = (case pair_likes s (new_inventionId like) (new_userId like) of
                [] \<Rightarrow> likes s @ [\<lparr>like_id = likes_id_seq s + 1,
                                   like_inventionId = new_inventionId like,
                                   like_userId = new_userId like, isLike = new_isLike like,
                                   like_createdAt = Some now\<rparr>]
              | existing # _ \<Rightarrow>
                  if isLike existing = new_isLike like then removeAll existing (likes s)
                  else map (\<lambda>l. if l = existing then existing\<lparr>isLike := new_isLike like\<rparr> else l)
                         (likes s))"
proof (cases "pair_likes s (new_inventionId like) (new_userId like)")
  case Nil
  have fresh: "likes_id_seq s + 1 \<notin> set (map like_id (likes s))"
    using pk by (fastforce simp: likes_pk_def list_all_iff)
  have t: "toggleLike now like s =
      (None, s\<lparr>likes_id_seq := likes_id_seq s + 1,
               likes := likes s @ [\<lparr>like_id = likes_id_seq s + 1,
                                   like_inventionId = new_inventionId like,
                                   like_userId = new_userId like, isLike = new_isLike like,
                                   like_createdAt = Some now\<rparr>]\<rparr>)"
    using Nil fresh inv usr by (simp add: toggleLike_def insert_likes_def Let_def)
  have v0: "vote_of s (new_inventionId like) (new_userId like) = NoVote"
    using Nil by (simp add: vote_of_def getUserLike_def)
  have v1: "vote_of (snd (toggleLike now like s)) (new_inventionId like) (new_userId like)
      = (if new_isLike like then Liked else Disliked)"
    using Nil unfolding t by (simp add: vote_of_def getUserLike_def pair_likes_def)
  show ?thesis using Nil v0 v1 t by (cases "new_isLike like") simp_all
next
  case (Cons existing rest)
  note ex = pair_likes_Cons_D [OF Cons]
  have single: "pair_likes s (new_inventionId like) (new_userId like) = [existing]"
    using one_like_per_pair_single [OF one Cons] Cons by simp
  have d: "distinct (map like_id (likes s))" using pk by (simp add: likes_pk_def)
  have id_iff: "like_id l = like_id existing \<longleftrightarrow> l = existing" if "l \<in> set (likes s)" for l
    using same_id_same_row [OF d that ex(1)] by auto
  have v0: "vote_of s (new_inventionId like) (new_userId like)
      = (if isLike existing then Liked else Disliked)"
    using Cons by (simp add: vote_of_def getUserLike_def)
  show ?thesis
  proof (cases "isLike existing = new_isLike like")
    case True
    have t: "toggleLike now like s =
        (None, s\<lparr>likes := filter (\<lambda>l. like_id l \<noteq> like_id existing) (likes s)\<rparr>)"
      using Cons True by (simp add: toggleLike_def)
    have rows: "filter (\<lambda>l. like_id l \<noteq> like_id existing) (likes s) = removeAll existing (likes s)"
      unfolding removeAll_filter_not_eq by (rule filter_cong) (use id_iff in auto)
    have "pair_likes (snd (toggleLike now like s)) (new_inventionId like) (new_userId like)
        = filter (\<lambda>l. like_id l \<noteq> like_id existing)
            (pair_likes s (new_inventionId like) (new_userId like))"
      unfolding t by (simp add: pair_likes_def conj_commute)
    then have "pair_likes (snd (toggleLike now like s)) (new_inventionId like) (new_userId like) = []"
      unfolding single by simp
    then have v1: "vote_of (snd (toggleLike now like s)) (new_inventionId like) (new_userId like) = NoVote"
      by (simp add: vote_of_def getUserLike_def)
    show ?thesis using Cons True v0 v1 t rows by (cases "new_isLike like") simp_all
  next
    case False
    let ?upd = "\<lambda>l. if like_id l = like_id existing then l\<lparr>isLike := new_isLike like\<rparr> else l"
    have t: "toggleLike now like s = (None, s\<lparr>likes := map ?upd (likes s)\<rparr>)"
      using Cons False by (simp add: toggleLike_def)
    have rows: "map ?upd (likes s)
        = map (\<lambda>l. if l = existing then existing\<lparr>isLike := new_isLike like\<rparr> else l) (likes s)"
      by (rule map_cong) (use id_iff in auto)
    have "pair_likes (snd (toggleLike now like s)) (new_inventionId like) (new_userId like)
        = map ?upd (pair_likes s (new_inventionId like) (new_userId like))"
      unfolding t by (simp add: pair_likes_def filter_map comp_def if_distrib cong: if_cong)
    then have "pair_likes (snd (toggleLike now like s)) (new_inventionId like) (new_userId like)
        = [existing\<lparr>isLike := new_isLike like\<rparr>]"
      unfolding single by simp
    then have v1: "vote_of (snd (toggleLike now like s)) (new_inventionId like) (new_userId like)
        = (if new_isLike like then Liked else Disliked)"
      by (simp add: vote_of_def getUserLike_def)
    show ?thesis using Cons False v0 v1 t rows
      by (cases "new_isLike like"; cases "isLike existing") simp_all
  qed
qed

theorem toggleLike_three_state_witness:
  "one_like_per_pair counts_store \<and> likes_pk counts_store
   \<and> (1::int) \<in> set (map inv_id (inventions counts_store))
   \<and> ''u1'' \<in> set (map user_id (users counts_store))
   \<and> vote_of counts_store 1 ''u1'' = Liked
   \<and> fst (toggleLike 10 \<lparr>new_inventionId = 1, new_isLike = True, new_userId = ''u1''\<rparr> counts_store) = None
   \<and> vote_of (snd (toggleLike 10 \<lparr>new_inventionId = 1, new_isLike = True, new_userId = ''u1''\<rparr>
                     counts_store)) 1 ''u1'' = NoVote
   \<and> one_like_per_pair filter_store \<and> likes_pk filter_store
   \<and> (2::int) \<in> set (map inv_id (inventions filter_store))
   \<and> ''u1'' \<in> set (map user_id (users filter_store))
   \<and> vote_of filter_store 2 ''u1'' = NoVote
   \<and> likes (snd (toggleLike 11 \<lparr>new_inventionId = 2, new_isLike = False, new_userId = ''u1''\<rparr>
                     filter_store))
       = [\<lparr>like_id = 1, like_inventionId = 2, like_userId = ''u1'', isLike = False,
           like_createdAt = Some 11\<rparr>]
   \<and> vote_of (snd (toggleLike 11 \<lparr>new_inventionId = 2, new_isLike = False, new_userId = ''u1''\<rparr>
                     filter_store)) 2 ''u1'' = Disliked"
proof -
  let ?like = "\<lparr>new_inventionId = 1, new_isLike = True, new_userId = ''u1''\<rparr>"
  let ?dislike = "\<lparr>new_inventionId = 2, new_isLike = False, new_userId = ''u1''\<rparr>"
  have h1: "one_like_per_pair counts_store" by code_simp
  have h2: "likes_pk counts_store" by code_simp
  have h3: "new_inventionId ?like \<in> set (map inv_id (inventions counts_store))" by code_simp
  have h4: "new_userId ?like \<in> set (map user_id (users counts_store))" by code_simp
  have v: "vote_of counts_store 1 ''u1'' = Liked" by code_simp
  have g1: "one_like_per_pair filter_store" by code_simp
  have g2: "likes_pk filter_store" by code_simp
  have g3: "new_inventionId ?dislike \<in> set (map inv_id (inventions filter_store))" by code_simp
  have g4: "new_userId ?dislike \<in> set (map user_id (users filter_store))" by code_simp
  have w: "vote_of filter_store 2 ''u1'' = NoVote" by code_simp
  have p: "pair_likes filter_store 2 ''u1'' = []" "likes filter_store = []"
    "likes_id_seq filter_store = 0"
    by (simp_all add: pair_likes_def filter_store_def)
  from toggleLike_three_state [OF h1 h2 h3 h4, of 10]
  have a: "fst (toggleLike 10 ?like counts_store) = None"
    "vote_of (snd (toggleLike 10 ?like counts_store)) 1 ''u1''
         = toggle_spec (vote_of counts_store 1 ''u1'') True"
    by simp_all
  from toggleLike_three_state [OF g1 g2 g3 g4, of 11]
  have b: "vote_of (snd (toggleLike 11 ?dislike filter_store)) 2 ''u1''
         = toggle_spec (vote_of filter_store 2 ''u1'') False"
    "likes (snd (toggleLike 11 ?dislike filter_store))
       = [\<lparr>like_id = 1, like_inventionId = 2, like_userId = ''u1'', isLike = False,
           like_createdAt = Some 11\<rparr>]"
    by (simp_all add: p)
  show ?thesis using h1 h2 h3 h4 v g1 g2 g3 g4 w a b by simp
qed

text \<open>
  C3. If every (inventionId, userId) pair has at most one Like row, then after any
  sequence of toggleLike calls, run one after the other, every pair still has at most
  one Like row.
\<close>

theorem toggleLikes_one_like_per_pair:
  "one_like_per_pair s \<Longrightarrow> one_like_per_pair (toggleLikes calls s)"
proof (induction calls arbitrary: s)
  case Nil
  then show ?case by simp
next
  case (Cons call calls)
  obtain now like where c: "call = (now, like)" by (cases call)
  from Cons.prems have "one_like_per_pair (snd (toggleLike now like s))"
    by (rule toggleLike_one_like_per_pair)
  then show ?case using Cons.IH c by simp
qed

theorem toggleLikes_one_like_per_pair_witness:
  "one_like_per_pair counts_store \<and>
   one_like_per_pair (toggleLikes
     [(10, \<lparr>new_inventionId = 1, new_isLike = True, new_userId = ''u1''\<rparr>),
      (11, \<lparr>new_inventionId = 1, new_isLike = False, new_userId = ''u2''\<rparr>),
      (12, \<lparr>new_inventionId = 1, new_isLike = True, new_userId = ''u2''\<rparr>),
      (13, \<lparr>new_inventionId = 1, new_isLike = True, new_userId = ''u1''\<rparr>)] counts_store)"
proof -
  have h: "one_like_per_pair counts_store"
    by code_simp
  show ?thesis using h toggleLikes_one_like_per_pair [OF h] by blast
qed

text \<open>
  C9. A call of toggleLike leaves the users, inventions, comments and files as they
  were, and every Like row of another (inventionId, userId) pair too; the like ids are
  unique, as the primary key of the table makes them. What the call may change is the
  rows of the pair and the sequence of the like ids.
\<close>

theorem toggleLike_frame:
  assumes pk: "distinct (map like_id (likes s))"
  shows "users (snd (toggleLike now like s)) = users s
       \<and> inventions (snd (toggleLike now like s)) = inventions s
       \<and> comments (snd (toggleLike now like s)) = comments s
       \<and> files (snd (toggleLike now like s)) = files s
       \<and> filter (\<lambda>l. \<not> (like_inventionId l = new_inventionId like \<and> like_userId l = new_userId like))
            (likes (snd (toggleLike now like s)))
         = filter (\<lambda>l. \<not> (like_inventionId l = new_inventionId like \<and> like_userId l = new_userId like))
            (likes s)"
proof (cases "pair_likes s (new_inventionId like) (new_userId like)")
  case Nil
  then show ?thesis
    by (simp add: toggleLike_def insert_likes_def Let_def)
next
  case (Cons existing rest)
  note ex = pair_likes_Cons_D [OF Cons]
  let ?other = "\<lambda>l. \<not> (like_inventionId l = new_inventionId like \<and> like_userId l = new_userId like)"
  have other_id: "like_id l \<noteq> like_id existing" if "l \<in> set (likes s)" "?other l" for l
    using same_id_same_row [OF pk that(1) ex(1)] that(2) ex(2,3) by auto
  show ?thesis
  proof (cases "isLike existing = new_isLike like")
    case True
    have "filter ?other (filter (\<lambda>l. like_id l \<noteq> like_id existing) (likes s)) = filter ?other (likes s)"
      unfolding filter_filter by (rule filter_cong) (use other_id in auto)
    with Cons True show ?thesis by (simp add: toggleLike_def)
  next
    case False
    have "filter ?other (map (\<lambda>l. if like_id l = like_id existing
                                   then l\<lparr>isLike := new_isLike like\<rparr> else l) (likes s))
          = filter ?other (likes s)"
      by (rule filter_map_unaffected) (use other_id in auto)
    with Cons False show ?thesis by (simp add: toggleLike_def)
  qed
qed

theorem toggleLike_frame_witness:
  "distinct (map like_id (likes counts_store))
   \<and> users (snd (toggleLike 10 \<lparr>new_inventionId = 1, new_isLike = False, new_userId = ''u2''\<rparr> counts_store))
       = users counts_store
   \<and> filter (\<lambda>l. \<not> (like_inventionId l = 1 \<and> like_userId l = ''u2''))
        (likes (snd (toggleLike 10 \<lparr>new_inventionId = 1, new_isLike = False, new_userId = ''u2''\<rparr> counts_store)))
       = [demo_like 1 1 ''u1'' True, demo_like 3 1 ''u3'' False]"
proof -
  let ?like = "\<lparr>new_inventionId = 1, new_isLike = False, new_userId = ''u2''\<rparr>"
  have h: "distinct (map like_id (likes counts_store))" by code_simp
  have f: "filter (\<lambda>l. \<not> (like_inventionId l = 1 \<and> like_userId l = ''u2'')) (likes counts_store)
           = [demo_like 1 1 ''u1'' True, demo_like 3 1 ''u3'' False]"
    by (simp add: counts_store_def demo_like_def)
  from toggleLike_frame [OF h, of 10 ?like]
  show ?thesis using h f by simp
qed

section \<open>Status transition\<close>

lemma distinct_key_filter_single:
  "distinct (map k xs) \<Longrightarrow> x \<in> set xs \<Longrightarrow> filter (\<lambda>y. k y = k x) xs = [x]"
proof (induction xs)
  case Nil then show ?case by simp
next
  case (Cons a xs)
  show ?case
  proof (cases "a = x")
    case True
    with Cons.prems have "k x \<notin> k ` set xs" by auto
    then have "filter (\<lambda>y. k y = k x) xs = []" unfolding filter_empty_conv by (metis image_eqI)
    with True show ?thesis by simp
  next
    case False
    with Cons.prems have "x \<in> set xs" "k a \<noteq> k x" by auto
    with Cons show ?thesis by simp
  qed
qed

lemma inv_id_set_updateData: "inv_id (set_updateData now st funding i) = inv_id i"
  by (simp add: set_updateData_def Let_def split: option.splits)

text \<open>An update whose parameters are bound: the row of the id is replaced and returned.\<close>

lemma update_bound:
  assumes d: "distinct (map inv_id (inventions s))" and i: "i \<in> set (inventions s)"
    and f: "funding_column funding = Inr w" and n: "int4 (inv_id i)"
  shows "updateInventionStatus now (Integral (inv_id i)) st funding s
       = (Inr (Some (set_updateData now st w i)),
          s\<lparr>inventions := map (\<lambda>x. if x = i then set_updateData now st w i else x) (inventions s)\<rparr>)"
proof -
  let ?upd = "\<lambda>x. if inv_id x = inv_id i then set_updateData now st w x else x"
  have "filter (\<lambda>x. inv_id x = inv_id i) (map ?upd (inventions s))
      = map ?upd (filter (\<lambda>x. inv_id x = inv_id i) (inventions s))"
    by (simp add: filter_map comp_def inv_id_set_updateData if_distrib cong: if_cong)
  also have "\<dots> = [set_updateData now st w i]"
    using distinct_key_filter_single [OF d i] by simp
  finally have first: "filter (\<lambda>x. inv_id x = inv_id i) (map ?upd (inventions s))
      = [set_updateData now st w i]" .
  have id_iff: "inv_id x = inv_id i \<longleftrightarrow> x = i" if "x \<in> set (inventions s)" for x
    using d that i by (meson distinct_map inj_onD)
  have rows: "map ?upd (inventions s)
      = map (\<lambda>x. if x = i then set_updateData now st w i else x) (inventions s)"
    by (rule map_cong) (use id_iff in auto)
  show ?thesis
    unfolding updateInventionStatus_def Let_def
    by (simp add: f n first) (simp add: rows)
qed

text \<open>
  C4, as the code has it. updateInventionStatus writes the funding amount whenever the
  argument is not undefined, whatever the new status: a number that the 32-bit column
  holds is stored, null clears the stored amount, and without the argument the stored
  amount stays as it was; the returned invention is the stored one with the new status,
  the new update time and that amount, and it takes the place of the stored one. A
  number that the column cannot hold makes the update fail, and nothing changes.
\<close>

theorem updateInventionStatus_funding:
  assumes d: "distinct (map inv_id (inventions s))" and i: "i \<in> set (inventions s)"
      and n: "int4 (inv_id i)"
  shows "updateInventionStatus now (Integral (inv_id i)) st funding s
       = (let stored = (\<lambda>amount.
                 (Inr (Some (i\<lparr>status := st, updatedAt := Some now, fundingAmount := amount\<rparr>)),
                  s\<lparr>inventions :=
                       map (\<lambda>x. if x = i
                                 then i\<lparr>status := st, updatedAt := Some now, fundingAmount := amount\<rparr>
                                 else x) (inventions s)\<rparr>))
          in case funding of
               Undefined \<Rightarrow> stored (fundingAmount i)
             | Null \<Rightarrow> stored None
             | Amount (Integral a) \<Rightarrow>
                 if int4 a then stored (Some a)
                 else if \<bar>a\<bar> < 10 ^ 21 then (Inl NumericValueOutOfRange, s)
                 else (Inl InvalidTextRepresentation, s)
             | Amount NonIntegral \<Rightarrow> (Inl InvalidTextRepresentation, s))"
proof (cases funding)
  case Undefined
  then have "funding_column funding = Inr None" by simp
  from update_bound [OF d i this n] Undefined show ?thesis
    by (simp add: set_updateData_def Let_def)
next
  case Null
  then have "funding_column funding = Inr (Some None)" by simp
  from update_bound [OF d i this n] Null show ?thesis
    by (simp add: set_updateData_def Let_def)
next
  case (Amount a)
  show ?thesis
  proof (cases a)
    case NonIntegral
    with Amount show ?thesis by (simp add: updateInventionStatus_def)
  next
    case (Integral k)
    show ?thesis
    proof (cases "int4 k")
      case True
      with Amount Integral have "funding_column funding = Inr (Some (Some k))" by simp
      from update_bound [OF d i this n] Amount Integral True show ?thesis
        by (simp add: set_updateData_def Let_def)
    next
      case False
      with Amount Integral show ?thesis by (simp add: updateInventionStatus_def)
    qed
  qed
qed

theorem updateInventionStatus_funding_witness:
  "distinct (map inv_id (inventions filter_store))
   \<and> demo_invention 3 ''u1'' [] ''pending'' \<in> set (inventions filter_store)
   \<and> int4 (inv_id (demo_invention 3 ''u1'' [] ''pending''))
   \<and> fst (updateInventionStatus 9 (Integral 3) ''rejected'' (Amount (Integral 5000)) filter_store)
       = Inr (Some ((demo_invention 3 ''u1'' [] ''pending'')
                 \<lparr>status := ''rejected'', updatedAt := Some 9, fundingAmount := Some 5000\<rparr>))
   \<and> updateInventionStatus 9 (Integral 3) ''approved'' (Amount (Integral 2147483648)) filter_store
       = (Inl NumericValueOutOfRange, filter_store)
   \<and> fst (updateInventionStatus 9 (Integral 3) ''approved'' Null filter_store)
       = Inr (Some ((demo_invention 3 ''u1'' [] ''pending'')
                 \<lparr>status := ''approved'', updatedAt := Some 9, fundingAmount := None\<rparr>))"
proof -
  let ?i = "demo_invention 3 ''u1'' [] ''pending''"
  have d: "distinct (map inv_id (inventions filter_store))" by code_simp
  have i: "?i \<in> set (inventions filter_store)" by (simp add: filter_store_def)
  have m: "inv_id ?i = 3" by (simp add: demo_invention_def)
  have n: "int4 (inv_id ?i)" by (simp add: m int4_def)
  have r: "int4 5000" "\<not> int4 2147483648" "\<bar>2147483648::int\<bar> < 10 ^ 21" by (simp_all add: int4_def)
  from updateInventionStatus_funding [OF d i n, of 9 "''rejected''" "Amount (Integral 5000)"]
  have a: "fst (updateInventionStatus 9 (Integral 3) ''rejected'' (Amount (Integral 5000)) filter_store)
       = Inr (Some (?i\<lparr>status := ''rejected'', updatedAt := Some 9, fundingAmount := Some 5000\<rparr>))"
    by (simp add: m r Let_def)
  from updateInventionStatus_funding [OF d i n, of 9 "''approved''" "Amount (Integral 2147483648)"]
  have b: "updateInventionStatus 9 (Integral 3) ''approved'' (Amount (Integral 2147483648)) filter_store
       = (Inl NumericValueOutOfRange, filter_store)"
    by (simp add: m r Let_def)
  from updateInventionStatus_funding [OF d i n, of 9 "''approved''" Null]
  have c: "fst (updateInventionStatus 9 (Integral 3) ''approved'' Null filter_store)
       = Inr (Some (?i\<lparr>status := ''approved'', updatedAt := Some 9, fundingAmount := None\<rparr>))"
    by (simp add: m Let_def)
  show ?thesis using d i n a b c by blast
qed

text \<open>
  C4 as stated fails: rejecting invention 3 of \<open>filter_store\<close> with the amount 5000
  stores 5000 on the rejected invention.
\<close>

theorem updateInventionStatus_rejected_funding_counterexample:
  "map_sum id (map_option (\<lambda>i. (inv_id i, status i, fundingAmount i)))
     (fst (updateInventionStatus 9 (Integral 3) ''rejected'' (Amount (Integral 5000)) filter_store))
   = Inr (Some (3, ''rejected'', Some 5000))"
  by code_simp

section \<open>Comments\<close>

text \<open>
  C8, as the code has it. createComment does not look at the content: for a stored
  invention and a stored author (and a comment id that is free) it succeeds, returns
  the new row with its author and appends that row, whose content is the given one,
  empty or not; the route answers 201.
\<close>

theorem createComment_no_content_check:
  assumes "comments_id_seq s + 1 \<notin> set (map comment_id (comments s))"
      and "new_comment_inventionId c \<in> set (map inv_id (inventions s))"
      and "new_authorId c \<in> set (map user_id (users s))"
  shows "\<exists>a. fst (createComment now c s)
               = Inr (\<lparr>comment_id = comments_id_seq s + 1, content = new_content c,
                       comment_inventionId = new_comment_inventionId c,
                       comment_authorId = new_authorId c, comment_createdAt = Some now\<rparr>, Some a)
             \<and> user_id a = new_authorId c
             \<and> comments (snd (createComment now c s))
                 = comments s @ [\<lparr>comment_id = comments_id_seq s + 1, content = new_content c,
                       comment_inventionId = new_comment_inventionId c,
                       comment_authorId = new_authorId c, comment_createdAt = Some now\<rparr>]
             \<and> status_code (fst (post_comment now (new_authorId c)
                   (Some (new_comment_inventionId c)) (Some (new_content c)) s)) = 201"
proof -
  from assms(3) obtain a rest where
    f: "filter (\<lambda>u. user_id u = new_authorId c) (users s) = a # rest"
    by (cases "filter (\<lambda>u. user_id u = new_authorId c) (users s)")
       (auto simp: filter_empty_conv)
  then have "a \<in> set (filter (\<lambda>u. user_id u = new_authorId c) (users s))" by simp
  then have a: "user_id a = new_authorId c" by simp
  have c: "\<lparr>new_content = new_content c, new_comment_inventionId = new_comment_inventionId c,
            new_authorId = new_authorId c\<rparr> = c"
    by simp
  have cc: "createComment now c s
      = (Inr (\<lparr>comment_id = comments_id_seq s + 1, content = new_content c,
                       comment_inventionId = new_comment_inventionId c,
                       comment_authorId = new_authorId c, comment_createdAt = Some now\<rparr>, Some a),
         s\<lparr>comments_id_seq := comments_id_seq s + 1,
           comments := comments s @ [\<lparr>comment_id = comments_id_seq s + 1, content = new_content c,
                       comment_inventionId = new_comment_inventionId c,
                       comment_authorId = new_authorId c, comment_createdAt = Some now\<rparr>]\<rparr>)"
    using assms f by (simp add: createComment_def insert_comments_def Let_def)
  have "status_code (fst (post_comment now (new_authorId c)
                   (Some (new_comment_inventionId c)) (Some (new_content c)) s)) = 201"
    unfolding post_comment_def by (simp add: c cc status_code_def)
  then show ?thesis using a cc by simp
qed

theorem createComment_no_content_check_witness:
  "comments_id_seq counts_store + 1 \<notin> set (map comment_id (comments counts_store))
   \<and> (1::int) \<in> set (map inv_id (inventions counts_store))
   \<and> ''u1'' \<in> set (map user_id (users counts_store))
   \<and> map content (comments (snd (createComment 7
          \<lparr>new_content = '''', new_comment_inventionId = 1, new_authorId = ''u1''\<rparr> counts_store)))
       = [''ok'', ''ok'', ''ok'', ''ok'', '''']"
proof -
  let ?c = "\<lparr>new_content = '''', new_comment_inventionId = 1, new_authorId = ''u1''\<rparr>"
  have h1: "comments_id_seq counts_store + 1 \<notin> set (map comment_id (comments counts_store))"
    by code_simp
  have h2: "new_comment_inventionId ?c \<in> set (map inv_id (inventions counts_store))" by code_simp
  have h3: "new_authorId ?c \<in> set (map user_id (users counts_store))" by code_simp
  have m: "map content (comments counts_store) = [''ok'', ''ok'', ''ok'', ''ok'']" by code_simp
  from createComment_no_content_check [OF h1 h2 h3, of 7]
  have "comments (snd (createComment 7 ?c counts_store))
      = comments counts_store @ [\<lparr>comment_id = comments_id_seq counts_store + 1, content = '''',
                       comment_inventionId = 1,
                       comment_authorId = ''u1'', comment_createdAt = Some 7\<rparr>]"
    by auto
  then show ?thesis using h1 h2 h3 m by simp
qed

text \<open>
  C8 as stated fails: a comment with empty content on invention 1 of \<open>counts_store\<close>
  is created, the table grows by one row, and the route answers 201.
\<close>

theorem createComment_empty_content_counterexample:
  "fst (createComment 7 \<lparr>new_content = '''', new_comment_inventionId = 1, new_authorId = ''u1''\<rparr>
          counts_store)
     = Inr (\<lparr>comment_id = 5, content = '''', comment_inventionId = 1, comment_authorId = ''u1'',
             comment_createdAt = Some 7\<rparr>, Some (demo_user ''u1''))
   \<and> length (comments (snd (createComment 7
          \<lparr>new_content = '''', new_comment_inventionId = 1, new_authorId = ''u1''\<rparr> counts_store)))
     = length (comments counts_store) + 1
   \<and> status_code (fst (post_comment 7 ''u1'' (Some 1) (Some '''') counts_store)) = 201"
  by code_simp

section \<open>Statistics\<close>

lemma length_filter_three_and_rest:
  assumes "distinct [a, b, c]"
  shows "length (filter (\<lambda>x. k x = a) xs) + length (filter (\<lambda>x. k x = b) xs)
       + length (filter (\<lambda>x. k x = c) xs) + length (filter (\<lambda>x. k x \<notin> set [a, b, c]) xs)
       = length xs"
  using assms by (induction xs) auto

text \<open>
  C10, as the code has it. getStats has no count for the status under_review: \<open>total\<close>
  is the number of all inventions, while pending + approved + rejected is the total
  minus the number of inventions whose status is none of these three, those under
  review among them; so the three counts sum to less than the total as soon as an
  invention is under review.
\<close>

theorem getStats_under_review_uncounted:
  "stats.total (getStats s) = length (inventions s)
   \<and> pending (getStats s) + approved (getStats s) + rejected (getStats s)
       = stats.total (getStats s)
         - length (filter (\<lambda>i. status i \<notin> set [''pending'', ''approved'', ''rejected''])
                     (inventions s))
   \<and> length (filter (\<lambda>i. status i = ''under_review'') (inventions s))
       \<le> length (filter (\<lambda>i. status i \<notin> set [''pending'', ''approved'', ''rejected''])
                     (inventions s))
   \<and> ((\<exists>i\<in>set (inventions s). status i = ''under_review'') \<longrightarrow>
        pending (getStats s) + approved (getStats s) + rejected (getStats s)
          < stats.total (getStats s))"
proof -
  let ?n = "\<lambda>st. length (filter (\<lambda>i. status i = st) (inventions s))"
  let ?rest = "length (filter (\<lambda>i. status i \<notin> set [''pending'', ''approved'', ''rejected''])
                     (inventions s))"
  have d: "distinct [''pending'', ''approved'', ''rejected'']" by simp
  have sum: "?n ''pending'' + ?n ''approved'' + ?n ''rejected'' + ?rest = length (inventions s)"
    using d by (rule length_filter_three_and_rest)
  have ur: "?n ''under_review'' \<le> ?rest"
  proof -
    have "filter (\<lambda>i. status i = ''under_review'') (inventions s)
        = filter (\<lambda>i. status i = ''under_review'')
            (filter (\<lambda>i. status i \<notin> set [''pending'', ''approved'', ''rejected'']) (inventions s))"
      unfolding filter_filter by (rule filter_cong) auto
    then show ?thesis by (metis length_filter_le)
  qed
  have pos: "0 < ?n ''under_review''" if "\<exists>i\<in>set (inventions s). status i = ''under_review''"
    using that by (auto simp: filter_empty_conv)
  have sel: "stats.total (getStats s) = length (inventions s)"
    "pending (getStats s) = ?n ''pending''" "approved (getStats s) = ?n ''approved''"
    "rejected (getStats s) = ?n ''rejected''"
    by (simp_all add: getStats_def)
  show ?thesis
  proof (intro conjI impI)
    show "stats.total (getStats s) = length (inventions s)" by (rule sel)
    show "pending (getStats s) + approved (getStats s) + rejected (getStats s)
            = stats.total (getStats s) - ?rest"
      unfolding sel using sum by linarith
    show "?n ''under_review'' \<le> ?rest" by (rule ur)
    show "pending (getStats s) + approved (getStats s) + rejected (getStats s)
            < stats.total (getStats s)"
      if "\<exists>i\<in>set (inventions s). status i = ''under_review''"
      unfolding sel using sum ur pos [OF that] by linarith
  qed
qed

theorem getStats_under_review_uncounted_witness:
  "list_ex (\<lambda>i. status i = ''under_review'') (inventions filter_store)
   \<and> stats.total (getStats filter_store) = 3
   \<and> pending (getStats filter_store) + approved (getStats filter_store)
       + rejected (getStats filter_store) = 2"
proof -
  have h: "\<exists>i\<in>set (inventions filter_store). status i = ''under_review''" by code_simp
  have n: "length (inventions filter_store) = 3"
    "length (filter (\<lambda>i. status i \<notin> set [''pending'', ''approved'', ''rejected''])
                     (inventions filter_store)) = 1"
    by code_simp+
  from getStats_under_review_uncounted [of filter_store] n
  have "stats.total (getStats filter_store) = 3"
    "pending (getStats filter_store) + approved (getStats filter_store)
       + rejected (getStats filter_store) = 2"
    by simp_all
  then show ?thesis using h by (simp add: list_ex_iff)
qed

text \<open>
  C10 as stated fails: the status column takes any text. After invention 3 of
  \<open>filter_store\<close> got the status \<open>archived\<close>, the three counts sum to 1, and the total
  minus the number of inventions under review is 2.
\<close>

theorem getStats_other_status_counterexample:
  "pending (getStats (snd (updateInventionStatus 9 (Integral 3) ''archived'' Undefined filter_store)))
     + approved (getStats (snd (updateInventionStatus 9 (Integral 3) ''archived'' Undefined filter_store)))
     + rejected (getStats (snd (updateInventionStatus 9 (Integral 3) ''archived'' Undefined filter_store)))
     = 1
   \<and> stats.total (getStats (snd (updateInventionStatus 9 (Integral 3) ''archived'' Undefined filter_store)))
     - length (filter (\<lambda>i. status i = ''under_review'')
         (inventions (snd (updateInventionStatus 9 (Integral 3) ''archived'' Undefined filter_store))))
     = 2"
  by code_simp

end
